theory Spec2Isabelle
  imports Complex_Main
begin

section \<open>JavaScript values\<close>

text \<open>
  The encoder and the decoder receive values of TypeScript type \<open>unknown\<close> and dispatch
  on their runtime shape. A value is modelled by the datatype below. A number is a finite
  value, \<open>NaN\<close> or an infinity; no function of the engine inspects the value of a number,
  only its \<open>typeof\<close>. An object is the list of its own enumerable properties in the
  order in which \<open>Object.entries\<close> lists them, an array the list of its elements. A
  symbol carries its description. Function values are not modelled, so no property of a
  value is callable; in every test of the engine a function would fare as a boolean does.
\<close>

datatype jsnumber = Finite real | NaN | PosInfinity | NegInfinity

datatype jsval =
    JUndefined
  | JNull
  | JBool bool
  | JNum jsnumber
  | JStr string
  | JBigInt int
  | JSymbol string
  | JArr "jsval list"
  | JObj "(string \<times> jsval) list"

datatype jstype = TUndefined | TObject | TBoolean | TNumber | TString | TBigInt | TSymbol

text \<open>The \<open>typeof\<close> operator: \<open>null\<close> and arrays are of type \<open>"object"\<close>.\<close>

fun typeof :: "jsval \<Rightarrow> jstype" where
  "typeof JUndefined = TUndefined"
| "typeof JNull = TObject"
| "typeof (JBool b) = TBoolean"
| "typeof (JNum n) = TNumber"
| "typeof (JStr s) = TString"
| "typeof (JBigInt n) = TBigInt"
| "typeof (JSymbol d) = TSymbol"
| "typeof (JArr xs) = TObject"
| "typeof (JObj kvs) = TObject"

fun isArray :: "jsval \<Rightarrow> bool" where
  "isArray (JArr xs) = True"
| "isArray v = False"

text \<open>\<open>value[i]\<close>, which the encoder applies to arrays only: reading past the end
  yields \<open>undefined\<close>.\<close>

fun index :: "jsval \<Rightarrow> nat \<Rightarrow> jsval" where
  "index (JArr xs) i = (if i < length xs then xs ! i else JUndefined)"
| "index v i = JUndefined"

subsection \<open>Decimal rendering of a counter or an array index\<close>

definition digit :: "nat \<Rightarrow> char" where
  "digit d = ''0123456789'' ! d"

fun showNat :: "nat \<Rightarrow> string" where
  "showNat n = (if n < 10 then [digit n] else showNat (n div 10) @ [digit (n mod 10)])"

declare showNat.simps [simp del]

subsection \<open>Errors\<close>

text \<open>
  Every \<open>throw new Error(...)\<close> of the source is a constructor, named after the error
  taxonomy of the specification and carrying what the message interpolates:
  \<^item> \<open>UnknownField f\<close>: "Encoder has no field for f on ..."
  \<^item> \<open>ExpectedObject v\<close>: "Expected object, but instead got v"
  \<^item> \<open>MissingSubCodec (Some f)\<close>: "Missing encode prop for f in ..." (encodeField);
    \<open>MissingSubCodec None\<close>: "Missing encode prop on ..." (encodeFunction)
  \<^item> \<open>InvalidSelectionShape v (Some f)\<close>: "Expected number, array or object, but instead
    got v for field f" (encodeField); \<open>InvalidSelectionShape v None\<close>: "Field request for
    function expected 1 or object, instead got v" (encodeFunction)
  \<^item> \<open>MissingArgsCodec\<close>: "Missing args prop on ..."
  \<^item> \<open>UnknownArgument a\<close>: "No encoding found for argument a"
  \<^item> \<open>MissingDecoder f\<close>: "Missing decoder for f on ..."
  \<^item> \<open>ExpectedArray v\<close>: "Expected array, but instead got v"
  \<^item> \<open>MissingEncoder f\<close>: "No input encoder found for f on ..."
  \<^item> \<open>TypeError\<close>: the runtime's own error: \<open>Object.entries(null)\<close> and
    \<open>Object.entries(undefined)\<close>, the call of a property that is not a function, and
    the conversion to a string, while a message is built, of a value that has none.
\<close>

datatype error =
    UnknownField string
  | ExpectedObject jsval
  | MissingSubCodec "string option"
  | InvalidSelectionShape jsval "string option"
  | MissingArgsCodec
  | UnknownArgument string
  | MissingDecoder string
  | ExpectedArray jsval
  | MissingEncoder string
  | TypeError

subsection \<open>Object.entries, join, Object.assign\<close>

definition indexed :: "jsval list \<Rightarrow> (string \<times> jsval) list" where
  "indexed xs = zip (map showNat [0..<length xs]) xs"

fun entries :: "jsval \<Rightarrow> error + (string \<times> jsval) list" where
  "entries JUndefined = Inl TypeError"
| "entries JNull = Inl TypeError"
| "entries (JBool b) = Inr []"
| "entries (JNum n) = Inr []"
| "entries (JStr s) = Inr (indexed (map (\<lambda>c. JStr [c]) s))"
| "entries (JBigInt n) = Inr []"
| "entries (JSymbol d) = Inr []"
| "entries (JArr xs) = Inr (indexed xs)"
| "entries (JObj kvs) = Inr kvs"

fun join :: "string \<Rightarrow> string list \<Rightarrow> string" where
  "join sep [] = []"
| "join sep [x] = x"
| "join sep (x # y # ys) = x @ sep @ join sep (y # ys)"

text \<open>\<open>Object.assign(a, {[k]: v})\<close> on an object \<open>a\<close> built from \<open>{}\<close>: an existing key
  keeps its place and takes the new value, a new key is appended. The key \<open>__proto__\<close> is
  not stored: the assignment reaches the setter inherited from \<open>Object.prototype\<close>.\<close>

fun put :: "(string \<times> jsval) list \<Rightarrow> string \<times> jsval \<Rightarrow> (string \<times> jsval) list" where
  "put [] (k, v) = [(k, v)]"
| "put ((k', v') # a) (k, v) = (if k' = k then (k, v) # a else (k', v') # put a (k, v))"

definition assign :: "(string \<times> jsval) list \<Rightarrow> string \<times> jsval \<Rightarrow> (string \<times> jsval) list" where
  "assign a kv = (if fst kv = ''__proto__'' then a else put a kv)"

subsection \<open>Values in error messages\<close>

text \<open>
  The messages are template literals. Converting a value to a string throws a
  \<open>TypeError\<close> for a symbol, for an object with an own property \<open>toString\<close> (it is
  not callable, and the inherited \<open>valueOf\<close> returns the object), and for an array with
  such an element (\<open>join\<close> skips \<open>null\<close> and \<open>undefined\<close>); then the \<open>Error\<close> of the
  \<open>throw\<close> statement is never created.
\<close>

fun stringThrows :: "jsval \<Rightarrow> bool" where
  "stringThrows (JSymbol d) = True"
| "stringThrows (JObj kvs) = (''toString'' \<in> fst ` set kvs)"
| "stringThrows (JArr xs) = (\<exists>x \<in> set xs. x \<noteq> JNull \<and> x \<noteq> JUndefined \<and> stringThrows x)"
| "stringThrows v = False"

text \<open>What \<open>throw new Error(`... ${v} ...`)\<close> raises.\<close>

definition thrown :: "jsval \<Rightarrow> error \<Rightarrow> error" where
  "thrown v e = (if stringThrows v then TypeError else e)"

section \<open>Codec\<close>

text \<open>
  \<open>CodecField = { decode, codec?: () => Codec, args?: Record<string, {type, encode}> }\<close> and
  \<open>Codec = Record<string, CodecField>\<close>. A Codec is the map of its own properties; what a
  property read finds beyond them is given by \<open>getMember\<close> below. The sub-codec is a
  supplier, so that the Codecs of mutually recursive types may refer to one another: the
  type is a codatatype. The functions \<open>decode\<close> and \<open>encode\<close> may throw, and they are
  functions of their argument.
\<close>

record ArgEncoder =
  arg_type :: string
  arg_encode :: "jsval \<Rightarrow> error + jsval"

codatatype CodecField = CodecField
  (decode: "jsval \<Rightarrow> error + jsval")
  (codec: "(unit \<Rightarrow> string \<Rightarrow> CodecField option) option")
  (args: "(string \<Rightarrow> ArgEncoder option) option")

type_synonym Codec = "string \<Rightarrow> CodecField option"

text \<open>
  A Codec and an argument map are plain objects, so a property read \<open>codec[name]\<close> that
  finds no own property goes on to \<open>Object.prototype\<close>. The members that the language
  gives it are listed here. Such
  a member is not \<open>undefined\<close>; read as a Field Descriptor it has no \<open>codec\<close>, no
  \<open>args\<close> and no \<open>decode\<close>, and read as an argument encoder it has no \<open>encode\<close>
  (a call of the missing function throws a \<open>TypeError\<close>).
\<close>

definition objectPrototype :: "string list" where
  "objectPrototype =
     [''constructor'', ''hasOwnProperty'', ''isPrototypeOf'', ''propertyIsEnumerable'',
      ''toLocaleString'', ''toString'', ''valueOf'', ''__proto__'', ''__defineGetter__'',
      ''__defineSetter__'', ''__lookupGetter__'', ''__lookupSetter__'']"

definition prototypeMember :: CodecField where
  "prototypeMember = CodecField (\<lambda>v. Inl TypeError) None None"

text \<open>\<open>codec[fieldName]\<close>; \<open>None\<close> is \<open>undefined\<close>.\<close>

definition getMember :: "Codec \<Rightarrow> string \<Rightarrow> CodecField option" where
  "getMember c fieldName =
     (case c fieldName of
        Some d \<Rightarrow> Some d
      | None \<Rightarrow> if fieldName \<in> set objectPrototype then Some prototypeMember else None)"

text \<open>What \<open>throw new Error(`... ${codec}`)\<close> raises: the conversion of the Codec to a
  string throws a \<open>TypeError\<close> when the Codec has a field named \<open>toString\<close>.\<close>

definition thrownOn :: "Codec \<Rightarrow> error \<Rightarrow> error" where
  "thrownOn c e = (if c ''toString'' = None then e else TypeError)"

section \<open>Response decoder\<close>

text \<open>The \<open>.map\<close> callback of \<open>decodeObject\<close> over \<open>Object.entries(value)\<close>: one
  single-key object per entry, in order; the first \<open>throw\<close> aborts the call.
  \<open>decoder[fieldName]?.decode\<close> is \<open>undefined\<close> for a name that is not an own field of
  the Codec, a member of \<open>Object.prototype\<close> included.\<close>

fun decodeFields :: "(string \<times> jsval) list \<Rightarrow> Codec \<Rightarrow> error + (string \<times> jsval) list list" where
  "decodeFields [] decoder = Inr []"
| "decodeFields ((fieldName, fieldValue) # rest) decoder =
     (case decoder fieldName of
        None \<Rightarrow> Inl (thrownOn decoder (MissingDecoder fieldName))
      | Some d \<Rightarrow>
          (case decode d fieldValue of
             Inl e \<Rightarrow> Inl e
           | Inr y \<Rightarrow>
               (case decodeFields rest decoder of
                  Inl e \<Rightarrow> Inl e
                | Inr ys \<Rightarrow> Inr ([(fieldName, y)] # ys))))"

text \<open>\<open>value != null\<close> excludes \<open>null\<close> and \<open>undefined\<close>; the \<open>reduce\<close> merges the
  single-key objects with \<open>Object.assign\<close> into an initially empty object.\<close>

definition decodeObject :: "jsval \<Rightarrow> Codec \<Rightarrow> error + (string \<times> jsval) list" where
  "decodeObject v decoder =
     (if v \<noteq> JNull \<and> v \<noteq> JUndefined \<and> typeof v = TObject then
        (case entries v of
           Inl e \<Rightarrow> Inl e
         | Inr es \<Rightarrow>
             (case decodeFields es decoder of
                Inl e \<Rightarrow> Inl e
              | Inr objs \<Rightarrow> Inr (foldl (\<lambda>a b. foldl assign a b) [] objs)))
      else Inl (thrown v (ExpectedObject v)))"

definition decodeObjectResponse :: "jsval \<Rightarrow> Codec \<Rightarrow> error + (string \<times> jsval) list" where
  "decodeObjectResponse v decoder = decodeObject v decoder"

fun mapResult :: "(jsval \<Rightarrow> error + jsval) \<Rightarrow> jsval list \<Rightarrow> error + jsval list" where
  "mapResult f [] = Inr []"
| "mapResult f (x # xs) =
     (case f x of
        Inl e \<Rightarrow> Inl e
      | Inr y \<Rightarrow> (case mapResult f xs of Inl e \<Rightarrow> Inl e | Inr ys \<Rightarrow> Inr (y # ys)))"

fun decodeList :: "jsval \<Rightarrow> (jsval \<Rightarrow> error + jsval) \<Rightarrow> error + jsval" where
  "decodeList (JArr xs) dec = (case mapResult dec xs of Inl e \<Rightarrow> Inl e | Inr ys \<Rightarrow> Inr (JArr ys))"
| "decodeList v dec = Inl (thrown v (ExpectedArray v))"

section \<open>Request encoder\<close>

record Variable =
  var_type :: string
  var_name :: string
  var_value :: jsval

text \<open>The state of one \<open>GraphQLRequest\<close> instance. The counter is a natural number: it
  starts at 1 and is only ever incremented.\<close>

record GraphQLRequest =
  variables :: "Variable list"
  variableCounter :: nat

definition new_GraphQLRequest :: GraphQLRequest where
  "new_GraphQLRequest = \<lparr>variables = [], variableCounter = 1\<rparr>"

record EncodedRequest =
  query :: string
  variablesJson :: "(string \<times> jsval) list option"

definition newVariableName :: "GraphQLRequest \<Rightarrow> string \<times> GraphQLRequest" where
  "newVariableName st =
     (''v'' @ showNat (variableCounter st), st\<lparr>variableCounter := variableCounter st + 1\<rparr>)"

definition variablesSupplyList :: "GraphQLRequest \<Rightarrow> string" where
  "variablesSupplyList st =
     (if length (variables st) = 0 then ''''
      else ''('' @ join '', '' (map (\<lambda>e. ''$'' @ var_name e @ '': '' @ var_type e) (variables st)) @ '')'')"

definition variablesJsonObject :: "GraphQLRequest \<Rightarrow> (string \<times> jsval) list option" where
  "variablesJsonObject st =
     (if length (variables st) = 0 then None
      else Some (foldl (\<lambda>a b. foldl assign a b) []
                   (map (\<lambda>e. [(var_name e, var_value e)]) (variables st))))"

text \<open>The \<open>.map\<close> callback of \<open>encodeFunction\<close> over the entries that passed the filter.
  For an argument name that the map inherits from \<open>Object.prototype\<close>, \<open>encodeArg\<close> is
  not \<open>undefined\<close> and the call \<open>encodeArg.encode(argValue)\<close> throws.\<close>

fun encodeArgs :: "(string \<Rightarrow> ArgEncoder option) \<Rightarrow> GraphQLRequest \<Rightarrow> (string \<times> jsval) list
    \<Rightarrow> error + (string list \<times> GraphQLRequest)" where
  "encodeArgs encodeArgsMap st [] = Inr ([], st)"
| "encodeArgs encodeArgsMap st ((argName, argValue) # rest) =
     (case encodeArgsMap argName of
        None \<Rightarrow>
          Inl (if argName \<in> set objectPrototype then TypeError else UnknownArgument argName)
      | Some encodeArg \<Rightarrow>
          (case arg_encode encodeArg argValue of
             Inl e \<Rightarrow> Inl e
           | Inr v \<Rightarrow>
               (let (variableName, st1) = newVariableName st;
                    st2 = st1\<lparr>variables := variables st1 @
                            [\<lparr>var_type = arg_type encodeArg, var_name = variableName, var_value = v\<rparr>]\<rparr>
                in case encodeArgs encodeArgsMap st2 rest of
                     Inl e \<Rightarrow> Inl e
                   | Inr (input, st3) \<Rightarrow> Inr ((argName @ '': $'' @ variableName) # input, st3))))"

text \<open>The measure of the recursion: the entries of a value are smaller than the value.\<close>

definition esz :: "(string \<times> jsval) list \<Rightarrow> nat" where
  "esz es = sum_list (map (\<lambda>kv. Suc (size (snd kv))) es)"

text \<open>
  The four functions of the class \<open>GraphQLRequest\<close> that walk the Selection, with the
  state of the instance passed in and returned. \<open>encodeEntries\<close> is the \<open>.map\<close> callback
  of \<open>encodeObject\<close> over \<open>Object.entries(obj)\<close>; the first \<open>throw\<close> aborts the call.
\<close>

function encodeEntries :: "GraphQLRequest \<Rightarrow> (string \<times> jsval) list \<Rightarrow> Codec
      \<Rightarrow> error + (string list \<times> GraphQLRequest)"
  and encodeObject :: "GraphQLRequest \<Rightarrow> jsval \<Rightarrow> Codec \<Rightarrow> error + (string \<times> GraphQLRequest)"
  and encodeField :: "GraphQLRequest \<Rightarrow> string \<Rightarrow> jsval \<Rightarrow> CodecField
      \<Rightarrow> error + (string \<times> GraphQLRequest)"
  and encodeFunction :: "GraphQLRequest \<Rightarrow> string \<Rightarrow> jsval \<Rightarrow> jsval \<Rightarrow> CodecField
      \<Rightarrow> error + (string \<times> GraphQLRequest)"
  where
  "encodeEntries st [] c = Inr ([], st)"
| "encodeEntries st ((fieldName, fieldValue) # rest) c =
     (case getMember c fieldName of
        None \<Rightarrow> Inl (thrownOn c (UnknownField fieldName))
      | Some encoderField \<Rightarrow>
          (case encodeField st fieldName fieldValue encoderField of
             Inl e \<Rightarrow> Inl e
           | Inr (s, st1) \<Rightarrow>
               (case encodeEntries st1 rest c of
                  Inl e \<Rightarrow> Inl e
                | Inr (ss, st2) \<Rightarrow> Inr (s # ss, st2))))"
| "encodeObject st obj c =
     (if obj \<noteq> JNull \<and> typeof obj = TObject then
        (case entries obj of
           Inl e \<Rightarrow> Inl e
         | Inr es \<Rightarrow>
             (case encodeEntries st es c of
                Inl e \<Rightarrow> Inl e
              | Inr (request, st1) \<Rightarrow> Inr (''{ '' @ join '' '' request @ '' }'', st1)))
      else Inl (thrown obj (ExpectedObject obj)))"
| "encodeField st field v d =
     (if typeof v = TNumber then Inr (field, st)
      else if isArray v then encodeFunction st field (index v 0) (index v 1) d
      else
        (case codec d of
           None \<Rightarrow> Inl (MissingSubCodec (Some field))
         | Some sub \<Rightarrow>
             if typeof v = TObject then
               (case encodeObject st v (sub ()) of
                  Inl e \<Rightarrow> Inl e
                | Inr (s, st1) \<Rightarrow> Inr (field @ '' '' @ s, st1))
             else Inl (thrown v (InvalidSelectionShape v (Some field)))))"
| "encodeFunction st field params fieldRequest encoder =
     (case args encoder of
        None \<Rightarrow> Inl MissingArgsCodec
      | Some encodeArgsMap \<Rightarrow>
          (case entries params of
             Inl e \<Rightarrow> Inl e
           | Inr es \<Rightarrow>
               (case encodeArgs encodeArgsMap st (filter (\<lambda>(_, argValue). argValue \<noteq> JNull \<and> argValue \<noteq> JUndefined) es) of
                  Inl e \<Rightarrow> Inl e
                | Inr (input, st1) \<Rightarrow>
                    if typeof fieldRequest = TNumber then
                      (if length input = 0 then Inr (field, st1)
                       else Inr (field @ ''('' @ join '', '' input @ '')'', st1))
                    else if typeof fieldRequest = TObject then
                      (case codec encoder of
                         None \<Rightarrow> Inl (MissingSubCodec None)
                       | Some sub \<Rightarrow>
                           (case encodeObject st1 fieldRequest (sub ()) of
                              Inl e \<Rightarrow> Inl e
                            | Inr (subRequest, st2) \<Rightarrow>
                                if length input = 0 then Inr (field @ '' '' @ subRequest, st2)
                                else Inr (field @ ''('' @ join '', '' input @ '') '' @ subRequest, st2)))
                    else Inl (thrown fieldRequest (InvalidSelectionShape fieldRequest None)))))"
  by pat_completeness auto

termination
proof -
  have ent: "esz es < size v" if "v \<noteq> JNull" "typeof v = TObject" "entries v = Inr es" for v es
  proof -
    have a: "esz (indexed xs) = size_list size xs" for xs
    proof -
      have "map snd (indexed xs) = xs"
        by (simp add: indexed_def)
      then have "map (\<lambda>kv. Suc (size (snd kv))) (indexed xs) = map (\<lambda>v. Suc (size v)) xs"
        by (metis (no_types, lifting) map_map comp_apply map_eq_conv)
      moreover have "sum_list (map (\<lambda>v. Suc (size v)) xs) = size_list size xs"
        by (induction xs) auto
      ultimately show ?thesis
        by (simp add: esz_def)
    qed
    have b: "esz kvs \<le> size_list (size_prod (\<lambda>x. 0) size) kvs" for kvs
      by (induction kvs) (auto simp: esz_def)
    from that show ?thesis
      by (cases v) (auto simp: a b less_Suc_eq_le)
  qed
  have idx: "size (index v i) < size v" if "isArray v" for v i
  proof (cases v)
    case (JArr xs)
    have "i < length xs \<Longrightarrow> size (xs ! i) \<le> size_list size xs"
      by (induction xs arbitrary: i) (auto simp: nth_Cons split: nat.splits intro: le_SucI trans_le_add2)
    with JArr show ?thesis
      by (auto simp: less_Suc_eq_le)
  qed (use that in auto)
  show ?thesis
    by (relation "measure (\<lambda>x. case x of
            Inl (Inl (st, es, c)) \<Rightarrow> 2 * esz es
          | Inl (Inr (st, obj, c)) \<Rightarrow> 2 * size obj
          | Inr (Inl (st, f, v, d)) \<Rightarrow> 2 * size v + 1
          | Inr (Inr (st, f, p, fr, d)) \<Rightarrow> 2 * size fr + 1)")
       (auto simp: esz_def ent [unfolded esz_def] idx)
qed

declare encodeObject.simps [simp del] encodeField.simps [simp del] encodeFunction.simps [simp del]

definition encodeRequest :: "string \<Rightarrow> jsval \<Rightarrow> Codec \<Rightarrow> error + EncodedRequest" where
  "encodeRequest operationType request c =
     (case encodeObject new_GraphQLRequest request c of
        Inl e \<Rightarrow> Inl e
      | Inr (encodedObject, encoding) \<Rightarrow>
          Inr \<lparr>query = operationType @ variablesSupplyList encoding @ '' '' @ encodedObject,
               variablesJson = variablesJsonObject encoding\<rparr>)"

section \<open>Calls in the runtime\<close>



section \<open>Variables and supplied arguments\<close>

text \<open>The \<open>k\<close> names that \<open>newVariableName\<close> returns on \<open>k\<close> successive calls from
  the counter \<open>n\<close>: \<open>v\<close> followed by \<open>n\<close>, by \<open>n + 1\<close>, and so on.\<close>

definition variableNames :: "nat \<Rightarrow> nat \<Rightarrow> string list" where
  "variableNames n k = map (\<lambda>i. ''v'' @ showNat i) [n..<n + k]"

text \<open>\<open>allocates st st' k\<close>: from state \<open>st\<close> to state \<open>st'\<close> exactly \<open>k\<close> variables
  were pushed, named by the counter in the order of the pushes.\<close>

definition allocates :: "GraphQLRequest \<Rightarrow> GraphQLRequest \<Rightarrow> nat \<Rightarrow> bool" where
  "allocates st st' k \<longleftrightarrow>
     variableCounter st' = variableCounter st + k \<and>
     length (variables st') = length (variables st) + k \<and>
     map var_name (variables st') = map var_name (variables st) @ variableNames (variableCounter st) k"

text \<open>
  The arguments that a Selection supplies, following the words of the specification:
  for every field given as a tuple, the entries of its argument object whose value is
  neither \<open>null\<close> nor \<open>undefined\<close>, each with its name, the wire type that the Codec
  declares for it and its value encoded to wire form; collected left to right and depth
  first, the arguments of a field before those of its sub-selection.
\<close>

type_synonym supplied = "string \<times> string \<times> jsval"

fun suppliedArgs :: "(string \<Rightarrow> ArgEncoder option) \<Rightarrow> (string \<times> jsval) list \<Rightarrow> supplied list" where
  "suppliedArgs a [] = []"
| "suppliedArgs a ((argName, argValue) # rest) =
     (if argValue = JNull \<or> argValue = JUndefined then suppliedArgs a rest
      else
        (case a argName of
           None \<Rightarrow> suppliedArgs a rest
         | Some enc \<Rightarrow>
             (case arg_encode enc argValue of
                Inl e \<Rightarrow> suppliedArgs a rest
              | Inr w \<Rightarrow> (argName, arg_type enc, w) # suppliedArgs a rest)))"

function suppliedEntries :: "Codec \<Rightarrow> (string \<times> jsval) list \<Rightarrow> supplied list"
  and suppliedObject :: "Codec \<Rightarrow> jsval \<Rightarrow> supplied list"
  and suppliedField :: "CodecField \<Rightarrow> jsval \<Rightarrow> supplied list"
  where
  "suppliedEntries c [] = []"
| "suppliedEntries c ((fieldName, fieldValue) # rest) =
     (case getMember c fieldName of None \<Rightarrow> [] | Some d \<Rightarrow> suppliedField d fieldValue)
     @ suppliedEntries c rest"
| "suppliedObject c obj =
     (if obj \<noteq> JNull \<and> typeof obj = TObject then
        (case entries obj of Inl e \<Rightarrow> [] | Inr es \<Rightarrow> suppliedEntries c es)
      else [])"
| "suppliedField d v =
     (if typeof v = TNumber then []
      else if isArray v then
        (case args d of
           None \<Rightarrow> []
         | Some a \<Rightarrow> (case entries (index v 0) of Inl e \<Rightarrow> [] | Inr es \<Rightarrow> suppliedArgs a es))
        @ (if typeof (index v 1) = TObject then
             (case codec d of None \<Rightarrow> [] | Some sub \<Rightarrow> suppliedObject (sub ()) (index v 1))
           else [])
      else if typeof v = TObject then
        (case codec d of None \<Rightarrow> [] | Some sub \<Rightarrow> suppliedObject (sub ()) v)
      else [])"
  by pat_completeness auto

termination
proof -
  have ent: "esz es < size v" if "v \<noteq> JNull" "typeof v = TObject" "entries v = Inr es" for v es
  proof -
    have a: "esz (indexed xs) = size_list size xs" for xs
    proof -
      have "map snd (indexed xs) = xs"
        by (simp add: indexed_def)
      then have "map (\<lambda>kv. Suc (size (snd kv))) (indexed xs) = map (\<lambda>v. Suc (size v)) xs"
        by (metis (no_types, lifting) map_map comp_apply map_eq_conv)
      moreover have "sum_list (map (\<lambda>v. Suc (size v)) xs) = size_list size xs"
        by (induction xs) auto
      ultimately show ?thesis
        by (simp add: esz_def)
    qed
    have b: "esz kvs \<le> size_list (size_prod (\<lambda>x. 0) size) kvs" for kvs
      by (induction kvs) (auto simp: esz_def)
    from that show ?thesis
      by (cases v) (auto simp: a b less_Suc_eq_le)
  qed
  have idx: "size (index v i) < size v" if "isArray v" for v i
  proof (cases v)
    case (JArr xs)
    have "i < length xs \<Longrightarrow> size (xs ! i) \<le> size_list size xs"
      by (induction xs arbitrary: i) (auto simp: nth_Cons split: nat.splits intro: le_SucI trans_le_add2)
    with JArr show ?thesis
      by (auto simp: less_Suc_eq_le)
  qed (use that in auto)
  have idx2: "2 * size (index v i) < Suc (2 * size v)" if "isArray v" for v i
    using idx [OF that, of i] by simp
  show ?thesis
    by (relation "measure (\<lambda>x. case x of
            Inl (c, es) \<Rightarrow> 2 * esz es
          | Inr (Inl (c, obj)) \<Rightarrow> 2 * size obj
          | Inr (Inr (d, v)) \<Rightarrow> 2 * size v + 1)")
       (auto simp: esz_def ent [unfolded esz_def] idx2)
qed

declare suppliedObject.simps [simp del] suppliedField.simps [simp del]

text \<open>The state after the variables of the supplied arguments \<open>xs\<close> were allocated, one
  after the other, from state \<open>st\<close>.\<close>

definition pushVariable :: "GraphQLRequest \<Rightarrow> supplied \<Rightarrow> GraphQLRequest" where
  "pushVariable st x =
     (case x of (argName, t, w) \<Rightarrow>
        (let (variableName, st1) = newVariableName st
         in st1\<lparr>variables := variables st1 @
                  [\<lparr>var_type = t, var_name = variableName, var_value = w\<rparr>]\<rparr>))"

definition pushAll :: "GraphQLRequest \<Rightarrow> supplied list \<Rightarrow> GraphQLRequest" where
  "pushAll st xs = foldl pushVariable st xs"

text \<open>
  The query text of a Selection, following the words of the specification and without
  state: the supplied arguments are numbered from \<open>n\<close> in the order in which
  \<open>suppliedObject\<close> lists them, so that the arguments of a field take the numbers that
  follow those of the fields to its left, and its sub-selection the numbers that follow
  its own arguments.
\<close>

definition expectedArgs :: "nat \<Rightarrow> supplied list \<Rightarrow> string list" where
  "expectedArgs n xs =
     map (\<lambda>(x, variableName). fst x @ '': $'' @ variableName) (zip xs (variableNames n (length xs)))"

function expectedEntries :: "nat \<Rightarrow> Codec \<Rightarrow> (string \<times> jsval) list \<Rightarrow> string list"
  and expectedObject :: "nat \<Rightarrow> Codec \<Rightarrow> jsval \<Rightarrow> string"
  and expectedField :: "nat \<Rightarrow> string \<Rightarrow> CodecField \<Rightarrow> jsval \<Rightarrow> string"
  where
  "expectedEntries n c [] = []"
| "expectedEntries n c ((fieldName, fieldValue) # rest) =
     (case getMember c fieldName of
        None \<Rightarrow> []
      | Some d \<Rightarrow>
          expectedField n fieldName d fieldValue
          # expectedEntries (n + length (suppliedField d fieldValue)) c rest)"
| "expectedObject n c obj =
     (if obj \<noteq> JNull \<and> typeof obj = TObject then
        (case entries obj of
           Inl e \<Rightarrow> []
         | Inr es \<Rightarrow> ''{ '' @ join '' '' (expectedEntries n c es) @ '' }'')
      else [])"
| "expectedField n field d v =
     (if typeof v = TNumber then field
      else if isArray v then
        (let xs = (case args d of
                     None \<Rightarrow> []
                   | Some a \<Rightarrow> (case entries (index v 0) of Inl e \<Rightarrow> [] | Inr es \<Rightarrow> suppliedArgs a es));
             call = (if xs = [] then field
                     else field @ ''('' @ join '', '' (expectedArgs n xs) @ '')'')
         in if typeof (index v 1) = TNumber then call
            else if typeof (index v 1) = TObject then
              (case codec d of
                 None \<Rightarrow> []
               | Some sub \<Rightarrow> call @ '' '' @ expectedObject (n + length xs) (sub ()) (index v 1))
            else [])
      else if typeof v = TObject then
        (case codec d of None \<Rightarrow> [] | Some sub \<Rightarrow> field @ '' '' @ expectedObject n (sub ()) v)
      else [])"
  by pat_completeness auto

termination
proof -
  have ent: "esz es < size v" if "v \<noteq> JNull" "typeof v = TObject" "entries v = Inr es" for v es
  proof -
    have a: "esz (indexed xs) = size_list size xs" for xs
    proof -
      have "map snd (indexed xs) = xs"
        by (simp add: indexed_def)
      then have "map (\<lambda>kv. Suc (size (snd kv))) (indexed xs) = map (\<lambda>v. Suc (size v)) xs"
        by (metis (no_types, lifting) map_map comp_apply map_eq_conv)
      moreover have "sum_list (map (\<lambda>v. Suc (size v)) xs) = size_list size xs"
        by (induction xs) auto
      ultimately show ?thesis
        by (simp add: esz_def)
    qed
    have b: "esz kvs \<le> size_list (size_prod (\<lambda>x. 0) size) kvs" for kvs
      by (induction kvs) (auto simp: esz_def)
    from that show ?thesis
      by (cases v) (auto simp: a b less_Suc_eq_le)
  qed
  have idx: "size (index v i) < size v" if "isArray v" for v i
  proof (cases v)
    case (JArr xs)
    have "i < length xs \<Longrightarrow> size (xs ! i) \<le> size_list size xs"
      by (induction xs arbitrary: i) (auto simp: nth_Cons split: nat.splits intro: le_SucI trans_le_add2)
    with JArr show ?thesis
      by (auto simp: less_Suc_eq_le)
  qed (use that in auto)
  have idx2: "2 * size (index v i) < Suc (2 * size v)" if "isArray v" for v i
    using idx [OF that, of i] by simp
  show ?thesis
    by (relation "measure (\<lambda>x. case x of
            Inl (n, c, es) \<Rightarrow> 2 * esz es
          | Inr (Inl (n, c, obj)) \<Rightarrow> 2 * size obj
          | Inr (Inr (n, f, d, v)) \<Rightarrow> 2 * size v + 1)")
       (auto simp: esz_def ent [unfolded esz_def] idx2)
qed

declare expectedObject.simps [simp del] expectedField.simps [simp del]

section \<open>A Codec for the examples\<close>

text \<open>The Codec that the code generator emits for the schema
  \<open>type Query { getUser(id: Int): User }\<close>,
  \<open>type User { name: String, email: String, posts(first: Int, after: String): [Post] }\<close>,
  \<open>type Post { title: String }\<close>, with the scalars of the client template
  (\<open>decode: input => input\<close>, \<open>encode: input => input\<close>).\<close>

definition scalarField :: CodecField where
  "scalarField = CodecField (\<lambda>v. Inr v) None None"

definition postCodec :: Codec where
  "postCodec = [''title'' \<mapsto> scalarField]"

definition userCodec :: Codec where
  "userCodec =
     [''name'' \<mapsto> scalarField,
      ''email'' \<mapsto> scalarField,
      ''posts'' \<mapsto>
        CodecField
          (\<lambda>v. decodeList v
             (\<lambda>x. case decodeObject x postCodec of Inl e \<Rightarrow> Inl e | Inr r \<Rightarrow> Inr (JObj r)))
          (Some (\<lambda>_. postCodec))
          (Some [''first'' \<mapsto> \<lparr>arg_type = ''Int'', arg_encode = (\<lambda>v. Inr v)\<rparr>,
                 ''after'' \<mapsto> \<lparr>arg_type = ''String'', arg_encode = (\<lambda>v. Inr v)\<rparr>])]"

definition queryCodec :: Codec where
  "queryCodec =
     [''getUser'' \<mapsto>
        CodecField
          (\<lambda>v. case decodeObject v userCodec of Inl e \<Rightarrow> Inl e | Inr r \<Rightarrow> Inr (JObj r))
          (Some (\<lambda>_. userCodec))
          (Some [''id'' \<mapsto> \<lparr>arg_type = ''Int'', arg_encode = (\<lambda>v. Inr v)\<rparr>])]"

section \<open>Helper lemmas\<close>

lemma showNat_digit: "n < 10 \<Longrightarrow> showNat n = [digit n]"
  by (simp add: showNat.simps)

lemma getMember_None: "getMember c k = None \<longleftrightarrow> c k = None \<and> k \<notin> set objectPrototype"
  by (simp add: getMember_def split: option.splits)

lemma decodeFields_succeeds_iff:
  "(\<exists>ys. decodeFields kvs decoder = Inr ys) \<longleftrightarrow>
   (\<forall>(k, v) \<in> set kvs. \<exists>d y. decoder k = Some d \<and> decode d v = Inr y)"
  by (induction kvs) (auto split: option.splits sum.splits)

lemma decodeObject_JObj:
  "decodeObject (JObj kvs) decoder =
     (case decodeFields kvs decoder of Inl e \<Rightarrow> Inl e
      | Inr objs \<Rightarrow> Inr (foldl (\<lambda>a b. foldl assign a b) [] objs))"
  by (simp add: decodeObject_def)

lemma encodeObject_JObj:
  "encodeObject st (JObj kvs) c =
     (case encodeEntries st kvs c of Inl e \<Rightarrow> Inl e
      | Inr (request, st1) \<Rightarrow> Inr (''{ '' @ join '' '' request @ '' }'', st1))"
  by (simp add: encodeObject.simps)

lemma variableNames_0: "variableNames n 0 = []"
  by (simp add: variableNames_def)

lemma variableNames_Suc: "variableNames n (Suc k) = (''v'' @ showNat n) # variableNames (Suc n) k"
  by (simp add: variableNames_def upt_conv_Cons del: upt_Suc)

lemma length_variableNames: "length (variableNames n k) = k"
  by (simp add: variableNames_def)

lemma allocates_refl: "allocates st st 0"
  by (simp add: allocates_def variableNames_0)

lemma encodeArgs_effect:
  "encodeArgs a st es = Inr (input, st') \<Longrightarrow>
     allocates st st' (length es) \<and>
     input = map (\<lambda>(kv, n). fst kv @ '': $'' @ n) (zip es (variableNames (variableCounter st) (length es)))"
proof (induction es arbitrary: st input st')
  case Nil
  then show ?case by (simp add: allocates_refl)
next
  case (Cons kv es)
  obtain k v where kv: "kv = (k, v)" by (cases kv)
  from Cons.prems kv obtain enc w inp st3 where
    enc: "a k = Some enc" "arg_encode enc v = Inr w"
    and rest: "encodeArgs a
       ((snd (newVariableName st))\<lparr>variables := variables (snd (newVariableName st)) @
          [\<lparr>var_type = arg_type enc, var_name = fst (newVariableName st), var_value = w\<rparr>]\<rparr>) es = Inr (inp, st3)"
    and res: "input = (k @ '': $'' @ fst (newVariableName st)) # inp" "st' = st3"
    by (auto split: option.splits sum.splits prod.splits simp: Let_def)
  from Cons.IH [OF rest] res kv show ?case
    by (simp add: newVariableName_def variableNames_Suc length_variableNames allocates_def)
qed

lemma digit_inj: "a < 10 \<Longrightarrow> b < 10 \<Longrightarrow> digit a = digit b \<Longrightarrow> a = b"
proof -
  assume ab: "a < 10" "b < 10" and eq: "digit a = digit b"
  have d: "distinct ''0123456789''" by simp
  have "length ''0123456789'' = 10" by simp
  with ab d eq show ?thesis
    unfolding digit_def by (metis nth_eq_iff_index_eq)
qed

lemma showNat_not_Nil: "showNat n \<noteq> []"
  by (subst showNat.simps) simp

lemma showNat_ge_10: "\<not> n < 10 \<Longrightarrow> showNat n = showNat (n div 10) @ [digit (n mod 10)]"
  by (subst showNat.simps) simp

lemma showNat_inj: "showNat m = showNat n \<Longrightarrow> m = n"
proof (induction m arbitrary: n rule: showNat.induct)
  case (1 m)
  show ?case
  proof (cases "m < 10")
    case True
    show ?thesis
    proof (cases "n < 10")
      case n: True
      with True "1.prems" show ?thesis
        by (simp add: showNat_digit digit_inj)
    next
      case False
      with True "1.prems" have "[digit m] = showNat (n div 10) @ [digit (n mod 10)]"
        by (simp add: showNat_digit showNat_ge_10)
      then show ?thesis
        using showNat_not_Nil [of "n div 10"] by auto
    qed
  next
    case m: False
    show ?thesis
    proof (cases "n < 10")
      case True
      with m "1.prems" have "showNat (m div 10) @ [digit (m mod 10)] = [digit n]"
        by (simp add: showNat_digit showNat_ge_10)
      then show ?thesis
        using showNat_not_Nil [of "m div 10"] by auto
    next
      case False
      with m "1.prems"
      have "showNat (m div 10) = showNat (n div 10)" "digit (m mod 10) = digit (n mod 10)"
        by (simp_all add: showNat_ge_10)
      with "1.IH" [OF m] have "m div 10 = n div 10" "m mod 10 = n mod 10"
        by (simp_all add: digit_inj)
      then show ?thesis
        by (metis div_mult_mod_eq)
    qed
  qed
qed

lemma distinct_variableNames: "distinct (variableNames n k)"
  by (simp add: variableNames_def distinct_map inj_on_def showNat_inj)

lemma variableNames_not_proto: "x \<in> set (variableNames n k) \<Longrightarrow> x \<noteq> ''__proto__''"
  by (auto simp: variableNames_def)

lemma put_fresh: "k \<notin> fst ` set a \<Longrightarrow> put a (k, v) = a @ [(k, v)]"
  by (induction a) auto

lemma assign_fresh: "k \<notin> fst ` set a \<Longrightarrow> k \<noteq> ''__proto__'' \<Longrightarrow> assign a (k, v) = a @ [(k, v)]"
  by (simp add: assign_def put_fresh)

lemma decodeFields_unknown_fails:
  "decoder k = None \<Longrightarrow> \<exists>e. decodeFields (pre @ (k, v) # post) decoder = Inl e"
  by (induction pre) (auto split: option.splits sum.splits)

lemma decodeFields_unknown_first:
  "decoder k = None \<Longrightarrow> decoder ''toString'' = None \<Longrightarrow> decodeFields pre decoder = Inr ys \<Longrightarrow>
   decodeFields (pre @ (k, v) # post) decoder = Inl (MissingDecoder k)"
  by (induction pre arbitrary: ys) (auto simp: thrownOn_def split: option.splits sum.splits)

lemma encodeEntries_unknown_not_Inr:
  "getMember c k = None \<Longrightarrow> encodeEntries st (pre @ (k, v) # post) c \<noteq> Inr r"
  by (induction pre arbitrary: st r) (auto split: option.splits sum.splits)

lemma encodeEntries_unknown_fails:
  "getMember c k = None \<Longrightarrow> \<exists>e. encodeEntries st (pre @ (k, v) # post) c = Inl e"
  using encodeEntries_unknown_not_Inr [of c k st pre v post]
  by (cases "encodeEntries st (pre @ (k, v) # post) c") auto

lemma encodeEntries_unknown_first:
  "getMember c k = None \<Longrightarrow> c ''toString'' = None \<Longrightarrow> encodeEntries st pre c = Inr (ss, st') \<Longrightarrow>
   encodeEntries st (pre @ (k, v) # post) c = Inl (UnknownField k)"
  by (induction pre arbitrary: st ss) (auto simp: thrownOn_def split: option.splits sum.splits)

lemma stringThrows_primitive:
  "typeof v \<noteq> TObject \<Longrightarrow> stringThrows v \<longleftrightarrow> typeof v = TSymbol"
  by (cases v) auto

lemma assign_all_distinct:
  "distinct (map f xs) \<Longrightarrow> \<forall>x \<in> set xs. f x \<noteq> ''__proto__'' \<Longrightarrow>
   foldl (\<lambda>a b. foldl assign a b) [] (map (\<lambda>e. [(f e, g e)]) xs) = map (\<lambda>e. (f e, g e)) xs"
proof (induction xs rule: rev_induct)
  case Nil
  then show ?case by simp
next
  case (snoc x xs)
  then have "f x \<notin> fst ` set (map (\<lambda>e. (f e, g e)) xs)"
    by (auto simp: image_iff)
  with snoc show ?case
    by (simp add: assign_fresh)
qed

lemma pushAll_Nil: "pushAll st [] = st"
  by (simp add: pushAll_def)

lemma pushAll_Cons: "pushAll st (x # xs) = pushAll (pushVariable st x) xs"
  by (simp add: pushAll_def)

lemma pushAll_append: "pushAll st (xs @ ys) = pushAll (pushAll st xs) ys"
  by (simp add: pushAll_def)

lemma pushVariable_simps:
  "variableCounter (pushVariable st (a, t, w)) = Suc (variableCounter st)"
  "variables (pushVariable st (a, t, w)) =
     variables st @ [\<lparr>var_type = t, var_name = ''v'' @ showNat (variableCounter st), var_value = w\<rparr>]"
  by (simp_all add: pushVariable_def newVariableName_def)

lemma pushAll_counter: "variableCounter (pushAll st xs) = variableCounter st + length xs"
proof (induction xs arbitrary: st)
  case Nil
  then show ?case by (simp add: pushAll_Nil)
next
  case (Cons x xs)
  obtain a t w where "x = (a, t, w)" by (cases x)
  with Cons show ?case
    by (simp add: pushAll_Cons pushVariable_simps)
qed

lemma pushAll_variables:
  "variables (pushAll st xs) =
     variables st @
     map (\<lambda>(n, (a, t, w)). \<lparr>var_type = t, var_name = n, var_value = w\<rparr>)
       (zip (variableNames (variableCounter st) (length xs)) xs)"
proof (induction xs arbitrary: st)
  case Nil
  then show ?case by (simp add: pushAll_Nil)
next
  case (Cons x xs)
  obtain a t w where "x = (a, t, w)" by (cases x)
  with Cons show ?case
    by (simp add: pushAll_Cons pushVariable_simps variableNames_Suc)
qed

lemma expectedArgs_Nil: "expectedArgs n [] = []"
  by (simp add: expectedArgs_def)

lemma expectedArgs_Cons:
  "expectedArgs n (x # xs) = (fst x @ '': $'' @ ''v'' @ showNat n) # expectedArgs (Suc n) xs"
  by (simp add: expectedArgs_def variableNames_Suc)

lemma encodeArgs_pushes:
  "encodeArgs a st (filter (\<lambda>(_, argValue). argValue \<noteq> JNull \<and> argValue \<noteq> JUndefined) es) = Inr (input, st')
   \<Longrightarrow> st' = pushAll st (suppliedArgs a es) \<and> input = expectedArgs (variableCounter st) (suppliedArgs a es)"
proof (induction es arbitrary: st input st')
  case Nil
  then show ?case by (simp add: pushAll_Nil expectedArgs_Nil)
next
  case (Cons kv es)
  obtain k v where kv: "kv = (k, v)" by (cases kv)
  show ?case
  proof (cases "v = JNull \<or> v = JUndefined")
    case True
    with Cons kv show ?thesis by auto
  next
    case False
    with Cons.prems kv obtain enc w inp where
      enc: "a k = Some enc" "arg_encode enc v = Inr w"
      and rest: "encodeArgs a (pushVariable st (k, arg_type enc, w))
            (filter (\<lambda>(_, argValue). argValue \<noteq> JNull \<and> argValue \<noteq> JUndefined) es) = Inr (inp, st')"
      and res: "input = (k @ '': $'' @ ''v'' @ showNat (variableCounter st)) # inp"
      by (auto split: option.splits sum.splits prod.splits
          simp: Let_def pushVariable_def newVariableName_def)
    from Cons.IH [OF rest] res kv False enc show ?thesis
      by (simp add: pushAll_Cons expectedArgs_Cons pushVariable_simps)
  qed
qed


lemma encode_pushes:
  "encodeEntries st es c = Inr (ss, st') \<Longrightarrow>
     st' = pushAll st (suppliedEntries c es) \<and> ss = expectedEntries (variableCounter st) c es"
  "encodeObject st obj c = Inr (s, st') \<Longrightarrow>
     st' = pushAll st (suppliedObject c obj) \<and> s = expectedObject (variableCounter st) c obj"
  "encodeField st f v d = Inr (s, st') \<Longrightarrow>
     st' = pushAll st (suppliedField d v) \<and> s = expectedField (variableCounter st) f d v"
  "encodeFunction st f p fr d = Inr (s, st') \<Longrightarrow>
     typeof w \<noteq> TNumber \<Longrightarrow> isArray w \<Longrightarrow> index w 0 = p \<Longrightarrow> index w 1 = fr \<Longrightarrow>
     st' = pushAll st (suppliedField d w) \<and> s = expectedField (variableCounter st) f d w"
proof (induction st es c and st obj c and st f v d and st f p fr d
    arbitrary: ss st' and s st' and s st' and s st' w
    rule: encodeEntries_encodeObject_encodeField_encodeFunction.induct)
  case (1 st c)
  then show ?case by (simp add: pushAll_Nil)
next
  case (2 st fieldName fieldValue rest c)
  from "2.prems" obtain d s1 st1 ss1 where
    d: "getMember c fieldName = Some d"
    and f: "encodeField st fieldName fieldValue d = Inr (s1, st1)"
    and r: "encodeEntries st1 rest c = Inr (ss1, st')"
    and ss: "ss = s1 # ss1"
    by (auto split: option.splits sum.splits prod.splits)
  from "2.IH"(1) [OF d f] "2.IH"(2) [OF d f refl r] d ss
  show ?case
    by (simp add: pushAll_append pushAll_counter)
next
  case (3 st obj c)
  from "3.prems" obtain es ss1 where
    o: "obj \<noteq> JNull \<and> typeof obj = TObject"
    and e: "entries obj = Inr es"
    and r: "encodeEntries st es c = Inr (ss1, st')"
    and s: "s = ''{ '' @ join '' '' ss1 @ '' }''"
    by (auto simp: encodeObject.simps split: if_splits sum.splits prod.splits)
  from "3.IH" [OF o e r] o e s show ?case
    by (simp add: suppliedObject.simps expectedObject.simps)
next
  case (4 st field v d)
  show ?case
  proof (cases "typeof v = TNumber")
    case True
    with "4.prems" show ?thesis
      by (simp add: encodeField.simps suppliedField.simps expectedField.simps pushAll_Nil)
  next
    case num: False
    show ?thesis
    proof (cases "isArray v")
      case True
      with num "4.prems" have "encodeFunction st field (index v 0) (index v 1) d = Inr (s, st')"
        by (simp add: encodeField.simps)
      from "4.IH"(1) [OF num True this num True refl refl] show ?thesis .
    next
      case arr: False
      from num arr "4.prems" obtain sub s1 where
        sub: "codec d = Some sub" and ob: "typeof v = TObject"
        and r: "encodeObject st v (sub ()) = Inr (s1, st')"
        and s: "s = field @ '' '' @ s1"
        by (auto simp: encodeField.simps split: option.splits if_splits sum.splits prod.splits)
      from "4.IH"(2) [OF num arr sub ob r] num arr ob sub s show ?thesis
        by (simp add: suppliedField.simps expectedField.simps)
    qed
  qed
next
  case (5 st field params fieldRequest encoder)
  let ?nn = "\<lambda>(_, argValue). argValue \<noteq> JNull \<and> argValue \<noteq> JUndefined"
  from "5.prems"(1) obtain a es input st1 where
    a: "args encoder = Some a" and e: "entries params = Inr es"
    and ea: "encodeArgs a st (filter ?nn es) = Inr (input, st1)"
    by (auto simp: encodeFunction.simps split: option.splits sum.splits prod.splits)
  let ?xs = "suppliedArgs a es"
  from encodeArgs_pushes [OF ea]
  have st1: "st1 = pushAll st ?xs" and input: "input = expectedArgs (variableCounter st) ?xs"
    by simp_all
  have len: "length input = 0 \<longleftrightarrow> ?xs = []"
    using input by (simp add: expectedArgs_def length_variableNames)
  note w = "5.prems"(2-5)
  show ?case
  proof (cases "typeof fieldRequest = TNumber")
    case True
    with "5.prems"(1) a e ea have "st' = st1"
      and "s = (if length input = 0 then field else field @ ''('' @ join '', '' input @ '')'')"
      by (auto simp: encodeFunction.simps split: if_splits)
    with st1 input len a e True w show ?thesis
      by (simp add: suppliedField.simps expectedField.simps Let_def)
  next
    case num: False
    from num "5.prems"(1) a e ea obtain sub s1 where
      ob: "typeof fieldRequest = TObject" and sub: "codec encoder = Some sub"
      and r: "encodeObject st1 fieldRequest (sub ()) = Inr (s1, st')"
      and s: "s = (if length input = 0 then field @ '' '' @ s1
                   else field @ ''('' @ join '', '' input @ '') '' @ s1)"
      by (auto simp: encodeFunction.simps split: option.splits if_splits sum.splits prod.splits)
    from "5.IH" [OF a e ea refl num ob sub r] st1 input len a e ob sub s num w show ?thesis
      by (simp add: suppliedField.simps expectedField.simps Let_def pushAll_append pushAll_counter)
  qed
qed

section \<open>Properties\<close>

text \<open>
  C10. Every number, whatever its value, is accepted as the leaf marker: for every number
  \<open>v\<close>, every field name and every field descriptor, \<open>encodeField\<close> returns the bare
  field name and leaves the state of the request unchanged.
\<close>

theorem encodeField_any_number:
  "encodeField st field (JNum v) descriptor = Inr (field, st)"
  by (simp add: encodeField.simps)

text \<open>
  C9. Decoding the empty response object succeeds against every Codec, also one that
  declares fields, and returns the empty mapping.
\<close>

theorem decodeObject_empty:
  "decodeObject (JObj []) decoder = Inr []"
  by (simp add: decodeObject_def)

text \<open>
  C1. The selection \<open>{ getUser: [{ id: 42 }, { name: 1, email: 1 }] }\<close>, against a Codec
  whose \<open>getUser\<close> descriptor has an argument encoder for \<open>id\<close> of wire type \<open>Int\<close>
  that encodes 42 to 42 and a sub-codec with the fields \<open>name\<close> and \<open>email\<close>, encodes
  under operation kind \<open>query\<close> to the text
  \<open>query($v1: Int) { getUser(id: $v1) { name email } }\<close> and the variables \<open>{ v1: 42 }\<close>.
\<close>

theorem encodeRequest_getUser:
  assumes "c ''getUser'' = Some d"
    and "args d = Some a" and "a ''id'' = Some enc"
    and "arg_type enc = ''Int''" and "arg_encode enc (JNum (Finite 42)) = Inr (JNum (Finite 42))"
    and "codec d = Some sub" and "sub () ''name'' = Some dn" and "sub () ''email'' = Some de"
  shows "encodeRequest ''query''
           (JObj [(''getUser'', JArr [JObj [(''id'', JNum (Finite 42))],
                                      JObj [(''name'', JNum (Finite 1)), (''email'', JNum (Finite 1))]])]) c
         = Inr \<lparr>query = ''query($v1: Int) { getUser(id: $v1) { name email } }'',
                variablesJson = Some [(''v1'', JNum (Finite 42))]\<rparr>"
  using assms
  by (simp add: encodeRequest_def encodeObject.simps encodeField.simps encodeFunction.simps
      new_GraphQLRequest_def newVariableName_def variablesSupplyList_def variablesJsonObject_def
      showNat_digit digit_def getMember_def assign_def)

theorem encodeRequest_getUser_witness:
  "encodeRequest ''query''
     (JObj [(''getUser'', JArr [JObj [(''id'', JNum (Finite 42))],
                                JObj [(''name'', JNum (Finite 1)), (''email'', JNum (Finite 1))]])]) queryCodec
   = Inr \<lparr>query = ''query($v1: Int) { getUser(id: $v1) { name email } }'',
          variablesJson = Some [(''v1'', JNum (Finite 42))]\<rparr>"
  by (rule encodeRequest_getUser [where d = "the (queryCodec ''getUser'')"
        and a = "the (args (the (queryCodec ''getUser'')))"
        and enc = "\<lparr>arg_type = ''Int'', arg_encode = (\<lambda>v. Inr v)\<rparr>"
        and sub = "\<lambda>_. userCodec" and dn = scalarField and de = scalarField])
     (simp_all add: queryCodec_def userCodec_def)

text \<open>
  C4 (as amended). A response key that is absent from the Codec does make decoding fail.
  \<open>decodeObject\<close> succeeds on a response object exactly when every key of the response
  has a Field Descriptor in the Codec whose \<open>decode\<close> accepts the key's value; what
  is never required is a field of the Codec that the response does not carry.
\<close>

theorem decodeObject_succeeds_iff:
  "(\<exists>r. decodeObject (JObj kvs) decoder = Inr r) \<longleftrightarrow>
   (\<forall>(k, v) \<in> set kvs. \<exists>d y. decoder k = Some d \<and> decode d v = Inr y)"
  using decodeFields_succeeds_iff [of kvs decoder]
  by (auto simp: decodeObject_JObj split: sum.splits)

text \<open>The theorem at the response \<open>{ name: "Ann" }\<close>, which lacks the Codec's field
  \<open>email\<close>.\<close>

theorem decodeObject_succeeds_iff_witness:
  "(\<exists>r. decodeObject (JObj [(''name'', JStr ''Ann'')]) userCodec = Inr r)"
  using decodeObject_succeeds_iff [of "[(''name'', JStr ''Ann'')]" userCodec]
  by (simp add: userCodec_def scalarField_def)

text \<open>The sentence of the specification fails at the response \<open>{ name: "Ann", extraField: 1 }\<close>.\<close>

theorem decodeObject_extra_key_counterexample:
  "decodeObject (JObj [(''name'', JStr ''Ann''), (''extraField'', JNum (Finite 1))]) userCodec
   = Inl (MissingDecoder ''extraField'')"
  by (simp add: decodeObject_def userCodec_def scalarField_def thrownOn_def)

text \<open>
  C7. In \<open>encodeFunction\<close>, where the descriptor has an argument map and the argument
  object has entries, the entries whose value is \<open>null\<close> or \<open>undefined\<close> are skipped:
  the result is that of the call with these entries removed; with the scalar sentinel as
  sub-selection, a successful call allocates exactly one variable for each remaining
  entry and emits exactly one fragment \<open>argName: $variable\<close> for each; and when no entry
  remains, the output is the bare field name, the state unchanged.
\<close>

theorem encodeFunction_skips_nullish:
  assumes "args encoder = Some a" and "entries params = Inr es"
  shows "let supplied = filter (\<lambda>(_, argValue). argValue \<noteq> JNull \<and> argValue \<noteq> JUndefined) es in
     encodeFunction st field params fieldRequest encoder
       = encodeFunction st field (JObj supplied) fieldRequest encoder \<and>
     (\<forall>s st'. typeof fieldRequest = TNumber \<and>
         encodeFunction st field params fieldRequest encoder = Inr (s, st') \<longrightarrow>
         allocates st st' (length supplied) \<and>
         s = (if supplied = [] then field
              else field @ ''('' @
                   join '', '' (map (\<lambda>(kv, n). fst kv @ '': $'' @ n)
                     (zip supplied (variableNames (variableCounter st) (length supplied)))) @ '')'')) \<and>
     (supplied = [] \<and> typeof fieldRequest = TNumber \<longrightarrow>
        encodeFunction st field params fieldRequest encoder = Inr (field, st))"
proof -
  let ?f = "\<lambda>(_, argValue). argValue \<noteq> JNull \<and> argValue \<noteq> JUndefined"
  let ?supplied = "filter ?f es"
  have 1: "encodeFunction st field params fieldRequest encoder
       = encodeFunction st field (JObj ?supplied) fieldRequest encoder"
    using assms by (simp add: encodeFunction.simps)
  have 2: "allocates st st' (length ?supplied) \<and>
         s = (if ?supplied = [] then field
              else field @ ''('' @
                   join '', '' (map (\<lambda>(kv, n). fst kv @ '': $'' @ n)
                     (zip ?supplied (variableNames (variableCounter st) (length ?supplied)))) @ '')'')"
    if num: "typeof fieldRequest = TNumber"
      and ok: "encodeFunction st field params fieldRequest encoder = Inr (s, st')" for s st'
  proof -
    from ok assms num obtain input where
      ea: "encodeArgs a st ?supplied = Inr (input, st')"
      and s: "s = (if length input = 0 then field else field @ ''('' @ join '', '' input @ '')'')"
      by (auto simp: encodeFunction.simps split: sum.splits prod.splits if_splits)
    from encodeArgs_effect [OF ea] s show ?thesis
      by (auto simp: length_variableNames)
  qed
  have 3: "encodeFunction st field params fieldRequest encoder = Inr (field, st)"
    if "?supplied = []" "typeof fieldRequest = TNumber"
    using that assms by (simp add: encodeFunction.simps)
  from 1 2 3 show ?thesis
    unfolding Let_def by blast
qed

text \<open>The theorem at the field \<open>posts\<close> with the arguments
  \<open>{ first: null, after: undefined, order: null }\<close> and
  \<open>{ first: null, after: "c", order: null }\<close>; \<open>order\<close> has no argument encoder.\<close>

theorem encodeFunction_skips_nullish_witness:
  "encodeFunction new_GraphQLRequest ''posts''
      (JObj [(''first'', JNull), (''after'', JUndefined), (''order'', JNull)]) (JNum (Finite 1))
      (the (userCodec ''posts''))
     = Inr (''posts'', new_GraphQLRequest) \<and>
   encodeFunction new_GraphQLRequest ''posts''
      (JObj [(''first'', JNull), (''after'', JStr ''c''), (''order'', JNull)]) (JNum (Finite 1))
      (the (userCodec ''posts''))
     = encodeFunction new_GraphQLRequest ''posts'' (JObj [(''after'', JStr ''c'')]) (JNum (Finite 1))
         (the (userCodec ''posts'')) \<and>
   encodeFunction new_GraphQLRequest ''posts'' (JObj [(''after'', JStr ''c'')]) (JNum (Finite 1))
      (the (userCodec ''posts''))
     = Inr (''posts(after: $v1)'',
            \<lparr>variables = [\<lparr>var_type = ''String'', var_name = ''v1'', var_value = JStr ''c''\<rparr>],
             variableCounter = 2\<rparr>)"
proof -
  let ?d = "the (userCodec ''posts'')"
  let ?a = "[''first'' \<mapsto> \<lparr>arg_type = ''Int'', arg_encode = (\<lambda>v. Inr v)\<rparr>,
             ''after'' \<mapsto> \<lparr>arg_type = ''String'', arg_encode = (\<lambda>v. Inr v)\<rparr>]"
  have a: "args ?d = Some ?a"
    by (simp add: userCodec_def)
  note t = encodeFunction_skips_nullish [OF a, where fieldRequest = "JNum (Finite 1)"
      and st = new_GraphQLRequest and field = "''posts''", unfolded Let_def]
  have 1: "encodeFunction new_GraphQLRequest ''posts''
      (JObj [(''first'', JNull), (''after'', JUndefined), (''order'', JNull)]) (JNum (Finite 1)) ?d
     = Inr (''posts'', new_GraphQLRequest)"
    using t [where params = "JObj [(''first'', JNull), (''after'', JUndefined), (''order'', JNull)]"
        and es = "[(''first'', JNull), (''after'', JUndefined), (''order'', JNull)]",
        THEN conjunct2, THEN conjunct2]
    by simp
  have 2: "encodeFunction new_GraphQLRequest ''posts''
      (JObj [(''first'', JNull), (''after'', JStr ''c''), (''order'', JNull)]) (JNum (Finite 1)) ?d
     = encodeFunction new_GraphQLRequest ''posts'' (JObj [(''after'', JStr ''c'')]) (JNum (Finite 1)) ?d"
    using t [where params = "JObj [(''first'', JNull), (''after'', JStr ''c''), (''order'', JNull)]"
        and es = "[(''first'', JNull), (''after'', JStr ''c''), (''order'', JNull)]",
        THEN conjunct1]
    by simp
  have 3: "encodeFunction new_GraphQLRequest ''posts'' (JObj [(''after'', JStr ''c'')]) (JNum (Finite 1)) ?d
     = Inr (''posts(after: $v1)'',
            \<lparr>variables = [\<lparr>var_type = ''String'', var_name = ''v1'', var_value = JStr ''c''\<rparr>],
             variableCounter = 2\<rparr>)"
    using a by (simp add: encodeFunction.simps new_GraphQLRequest_def newVariableName_def
        showNat_digit digit_def)
  from 1 2 3 show ?thesis
    by (intro conjI)
qed

text \<open>
  C2 (as amended). One variable is allocated for every supplied argument, not for every
  argumented field. When encoding succeeds and the Selection supplies \<open>k\<close> arguments
  whose value is neither \<open>null\<close> nor \<open>undefined\<close>, listed over all tuple fields from left
  to right and depth first, the arguments of a field before those of its sub-selection,
  then the variable mapping is absent if \<open>k = 0\<close> and otherwise has exactly the \<open>k\<close>
  distinct keys \<open>v1, \<dots>, vk\<close>, in this order; \<open>vi\<close> holds the encoded value of the \<open>i\<close>-th
  supplied argument, is declared with the wire type of that argument in the header of
  the query, and stands at the place of that argument in the text of the query.
\<close>

theorem encodeRequest_variable_names:
  assumes "encodeRequest operationType request c = Inr r"
  shows "let supplied = suppliedObject c request;
             names = variableNames 1 (length supplied)
         in distinct names \<and>
            variablesJson r =
              (if supplied = [] then None
               else Some (zip names (map (\<lambda>(argName, t, w). w) supplied))) \<and>
            query r =
              operationType
              @ (if supplied = [] then []
                 else ''('' @ join '', '' (map (\<lambda>(n, (argName, t, w)). ''$'' @ n @ '': '' @ t)
                                            (zip names supplied)) @ '')'')
              @ '' '' @ expectedObject 1 c request"
proof -
  let ?xs = "suppliedObject c request"
  let ?names = "variableNames 1 (length ?xs)"
  from assms obtain s st where
    enc: "encodeObject new_GraphQLRequest request c = Inr (s, st)"
    and q: "query r = operationType @ variablesSupplyList st @ '' '' @ s"
    and j: "variablesJson r = variablesJsonObject st"
    by (auto simp: encodeRequest_def split: sum.splits prod.splits)
  from encode_pushes(2) [OF enc]
  have st: "st = pushAll new_GraphQLRequest ?xs" and s: "s = expectedObject 1 c request"
    by (simp_all add: new_GraphQLRequest_def)
  have vars: "variables st =
      map (\<lambda>(n, (a, t, w)). \<lparr>var_type = t, var_name = n, var_value = w\<rparr>) (zip ?names ?xs)"
    unfolding st by (simp add: pushAll_variables new_GraphQLRequest_def)
  have n: "map var_name (variables st) = ?names"
    unfolding vars by (simp add: map_fst_zip length_variableNames comp_def case_prod_beta)
  have e: "variables st = [] \<longleftrightarrow> ?xs = []"
    unfolding vars by (simp add: zip_eq_Nil_iff) (metis length_0_conv length_variableNames)
  have d: "distinct (map var_name (variables st))"
    unfolding n by (rule distinct_variableNames)
  have np: "\<forall>x \<in> set (variables st). var_name x \<noteq> ''__proto__''"
    using n variableNames_not_proto by (metis image_eqI list.set_map)
  have json: "variablesJsonObject st =
      (if ?xs = [] then None else Some (zip ?names (map (\<lambda>(argName, t, w). w) ?xs)))"
  proof -
    have "map (\<lambda>e. (var_name e, var_value e)) (variables st)
          = zip ?names (map (\<lambda>(argName, t, w). w) ?xs)"
      unfolding vars by (simp add: zip_map2 case_prod_beta)
    with e show ?thesis
      by (simp add: variablesJsonObject_def assign_all_distinct [OF d np])
  qed
  have header: "variablesSupplyList st =
      (if ?xs = [] then []
       else ''('' @ join '', '' (map (\<lambda>(n, (argName, t, w)). ''$'' @ n @ '': '' @ t) (zip ?names ?xs)) @ '')'')"
  proof -
    have "map (\<lambda>e. ''$'' @ var_name e @ '': '' @ var_type e) (variables st)
          = map (\<lambda>(n, (argName, t, w)). ''$'' @ n @ '': '' @ t) (zip ?names ?xs)"
      unfolding vars by (simp add: case_prod_beta)
    with e show ?thesis
      by (simp add: variablesSupplyList_def)
  qed
  show ?thesis
    unfolding Let_def using distinct_variableNames [of 1 "length ?xs"] j json q header s
    by simp
qed

text \<open>The theorem at the selection
  \<open>{ getUser: [{ id: 42 }, { name: 1, posts: [{ first: 10, after: null }, { title: 1 }] }] }\<close>.\<close>

theorem encodeRequest_variable_names_witness:
  "encodeRequest ''query''
     (JObj [(''getUser'', JArr [JObj [(''id'', JNum (Finite 42))],
        JObj [(''name'', JNum (Finite 1)),
              (''posts'', JArr [JObj [(''first'', JNum (Finite 10)), (''after'', JNull)],
                               JObj [(''title'', JNum (Finite 1))]])]])]) queryCodec
   = Inr \<lparr>query = ''query($v1: Int, $v2: Int) { getUser(id: $v1) { name posts(first: $v2) { title } } }'',
          variablesJson = Some [(''v1'', JNum (Finite 42)), (''v2'', JNum (Finite 10))]\<rparr> \<and>
   suppliedObject queryCodec
     (JObj [(''getUser'', JArr [JObj [(''id'', JNum (Finite 42))],
        JObj [(''name'', JNum (Finite 1)),
              (''posts'', JArr [JObj [(''first'', JNum (Finite 10)), (''after'', JNull)],
                               JObj [(''title'', JNum (Finite 1))]])]])])
   = [(''id'', ''Int'', JNum (Finite 42)), (''first'', ''Int'', JNum (Finite 10))] \<and>
   expectedObject 1 queryCodec
     (JObj [(''getUser'', JArr [JObj [(''id'', JNum (Finite 42))],
        JObj [(''name'', JNum (Finite 1)),
              (''posts'', JArr [JObj [(''first'', JNum (Finite 10)), (''after'', JNull)],
                               JObj [(''title'', JNum (Finite 1))]])]])])
   = ''{ getUser(id: $v1) { name posts(first: $v2) { title } } }''"
proof -
  let ?sel = "JObj [(''getUser'', JArr [JObj [(''id'', JNum (Finite 42))],
        JObj [(''name'', JNum (Finite 1)),
              (''posts'', JArr [JObj [(''first'', JNum (Finite 10)), (''after'', JNull)],
                               JObj [(''title'', JNum (Finite 1))]])]])]"
  let ?r = "\<lparr>query = ''query($v1: Int, $v2: Int) { getUser(id: $v1) { name posts(first: $v2) { title } } }'',
          variablesJson = Some [(''v1'', JNum (Finite 42)), (''v2'', JNum (Finite 10))]\<rparr>"
  have a: "encodeRequest ''query'' ?sel queryCodec = Inr ?r"
    by (simp add: encodeRequest_def encodeObject.simps encodeField.simps encodeFunction.simps
      new_GraphQLRequest_def newVariableName_def variablesSupplyList_def variablesJsonObject_def
      showNat_digit digit_def queryCodec_def userCodec_def postCodec_def getMember_def assign_def)
  have b: "suppliedObject queryCodec ?sel
      = [(''id'', ''Int'', JNum (Finite 42)), (''first'', ''Int'', JNum (Finite 10))]"
    by (simp add: suppliedObject.simps suppliedField.simps getMember_def
        queryCodec_def userCodec_def postCodec_def)
  have n: "variableNames (Suc 0) (Suc (Suc 0)) = [''v1'', ''v2'']"
    by (simp add: variableNames_Suc variableNames_0 showNat_digit digit_def)
  from encodeRequest_variable_names [OF a] b n
  have "expectedObject 1 queryCodec ?sel = ''{ getUser(id: $v1) { name posts(first: $v2) { title } } }''"
    by (simp add: Let_def)
  with a b show ?thesis
    by (intro conjI)
qed

text \<open>The sentence of the specification fails at the selection
  \<open>{ posts: [{ first: 10, after: "c" }, { title: 1 }] }\<close>: one argumented field, two
  variables.\<close>

theorem encodeRequest_variable_names_counterexample:
  "encodeRequest ''query''
     (JObj [(''posts'', JArr [JObj [(''first'', JNum (Finite 10)), (''after'', JStr ''c'')],
                              JObj [(''title'', JNum (Finite 1))]])]) userCodec
   = Inr \<lparr>query = ''query($v1: Int, $v2: String) { posts(first: $v1, after: $v2) { title } }'',
          variablesJson = Some [(''v1'', JNum (Finite 10)), (''v2'', JStr ''c'')]\<rparr>"
  by (simp add: encodeRequest_def encodeObject.simps encodeField.simps encodeFunction.simps
      new_GraphQLRequest_def newVariableName_def variablesSupplyList_def variablesJsonObject_def
      showNat_digit digit_def userCodec_def postCodec_def getMember_def assign_def)

text \<open>
  C3 (as amended). \<open>encodeField\<close> checks the shape of the Selection value in the order
  number, array, keyed structure, and the sub-codec of the descriptor between array and
  keyed structure. A number yields the bare field name and an array is handed to
  \<open>encodeFunction\<close>, whatever the descriptor. Every other value against a descriptor
  without sub-codec fails with \<open>MissingSubCodec\<close>. Against a descriptor with a sub-codec, a
  value of \<open>typeof\<close> object is encoded recursively (for \<open>null\<close> the recursive
  \<open>encodeObject\<close> raises \<open>ExpectedObject\<close>). Every value that is neither a number, nor an
  array, nor of \<open>typeof\<close> object makes \<open>encodeField\<close> fail, and against a descriptor with a
  sub-codec the error is \<open>InvalidSelectionShape\<close> unless the value is a symbol.
\<close>

theorem encodeField_dispatch:
  "(typeof v = TNumber \<longrightarrow> encodeField st field v d = Inr (field, st)) \<and>
   (typeof v \<noteq> TNumber \<and> isArray v \<longrightarrow>
      encodeField st field v d = encodeFunction st field (index v 0) (index v 1) d) \<and>
   (typeof v \<noteq> TNumber \<and> \<not> isArray v \<and> codec d = None \<longrightarrow>
      encodeField st field v d = Inl (MissingSubCodec (Some field))) \<and>
   (typeof v \<noteq> TNumber \<and> \<not> isArray v \<and> typeof v = TObject \<and> codec d = Some sub \<longrightarrow>
      encodeField st field v d =
        (case encodeObject st v (sub ()) of
           Inl e \<Rightarrow> Inl e
         | Inr (s, st1) \<Rightarrow> Inr (field @ '' '' @ s, st1))) \<and>
   (v = JNull \<and> codec d = Some sub \<longrightarrow> encodeField st field v d = Inl (ExpectedObject JNull)) \<and>
   (typeof v \<noteq> TNumber \<and> \<not> isArray v \<and> typeof v \<noteq> TObject \<longrightarrow>
      (\<exists>e. encodeField st field v d = Inl e)) \<and>
   (typeof v \<noteq> TNumber \<and> \<not> isArray v \<and> typeof v \<noteq> TObject \<and> typeof v \<noteq> TSymbol \<and>
    codec d = Some sub \<longrightarrow>
      encodeField st field v d = Inl (InvalidSelectionShape v (Some field)))"
  by (auto simp: encodeField.simps encodeObject.simps thrown_def stringThrows_primitive
      split: option.splits)

text \<open>The theorem at the descriptor of \<open>getUser\<close> and the values \<open>1\<close>, \<open>[{}, 1]\<close>,
  \<open>{ name: 1 }\<close>, \<open>null\<close>, a symbol and \<open>"name"\<close>, and at the scalar field \<open>name\<close> and the
  value \<open>"yes"\<close>.\<close>

theorem encodeField_dispatch_witness:
  "encodeField new_GraphQLRequest ''getUser'' (JNum (Finite 1)) (the (queryCodec ''getUser''))
     = Inr (''getUser'', new_GraphQLRequest) \<and>
   encodeField new_GraphQLRequest ''getUser'' (JArr [JObj [], JNum (Finite 1)]) (the (queryCodec ''getUser''))
     = Inr (''getUser'', new_GraphQLRequest) \<and>
   encodeField new_GraphQLRequest ''name'' (JStr ''yes'') scalarField
     = Inl (MissingSubCodec (Some ''name'')) \<and>
   encodeField new_GraphQLRequest ''getUser'' (JObj [(''name'', JNum (Finite 1))]) (the (queryCodec ''getUser''))
     = Inr (''getUser { name }'', new_GraphQLRequest) \<and>
   encodeField new_GraphQLRequest ''getUser'' JNull (the (queryCodec ''getUser''))
     = Inl (ExpectedObject JNull) \<and>
   (\<exists>e. encodeField new_GraphQLRequest ''getUser'' (JSymbol ''name'') (the (queryCodec ''getUser'')) = Inl e) \<and>
   encodeField new_GraphQLRequest ''getUser'' (JStr ''name'') (the (queryCodec ''getUser''))
     = Inl (InvalidSelectionShape (JStr ''name'') (Some ''getUser''))"
proof -
  let ?d = "the (queryCodec ''getUser'')"
  have c: "codec ?d = Some (\<lambda>_. userCodec)"
    by (simp add: queryCodec_def)
  have c0: "codec scalarField = None"
    by (simp add: scalarField_def)
  note t = encodeField_dispatch [where st = new_GraphQLRequest and field = "''getUser''"
      and d = ?d and sub = "\<lambda>_. userCodec"]
  have 1: "encodeField new_GraphQLRequest ''getUser'' (JNum (Finite 1)) ?d = Inr (''getUser'', new_GraphQLRequest)"
    using t [where v = "JNum (Finite 1)"] by simp
  have 2: "encodeField new_GraphQLRequest ''getUser'' (JArr [JObj [], JNum (Finite 1)]) ?d
      = Inr (''getUser'', new_GraphQLRequest)"
    using t [where v = "JArr [JObj [], JNum (Finite 1)]"]
    by (simp add: encodeFunction.simps queryCodec_def)
  have 3: "encodeField new_GraphQLRequest ''name'' (JStr ''yes'') scalarField
      = Inl (MissingSubCodec (Some ''name''))"
    using encodeField_dispatch [where st = new_GraphQLRequest and field = "''name''"
      and d = scalarField and v = "JStr ''yes''"] c0 by simp
  have 4: "encodeField new_GraphQLRequest ''getUser'' (JObj [(''name'', JNum (Finite 1))]) ?d
      = Inr (''getUser { name }'', new_GraphQLRequest)"
    using t [where v = "JObj [(''name'', JNum (Finite 1))]"] c
    by (simp add: encodeObject.simps encodeField.simps userCodec_def getMember_def)
  have 5: "encodeField new_GraphQLRequest ''getUser'' JNull ?d = Inl (ExpectedObject JNull)"
    using t [where v = JNull] c by (simp add: encodeObject.simps thrown_def)
  have 6: "\<exists>e. encodeField new_GraphQLRequest ''getUser'' (JSymbol ''name'') ?d = Inl e"
    using t [where v = "JSymbol ''name''"] by simp
  have 7: "encodeField new_GraphQLRequest ''getUser'' (JStr ''name'') ?d
      = Inl (InvalidSelectionShape (JStr ''name'') (Some ''getUser''))"
    using t [where v = "JStr ''name''"] c by simp
  from 1 2 3 4 5 6 7 show ?thesis
    by (intro conjI)
qed

text \<open>The sentence of the specification fails at \<open>true\<close> against a descriptor with no
  sub-codec, where the check of the sub-codec comes before the check of the shape, at
  \<open>null\<close> against a descriptor with a sub-codec, and at a symbol, which cannot be
  converted to a string for the message.\<close>

theorem encodeField_dispatch_counterexample:
  "encodeField new_GraphQLRequest ''name'' (JBool True) scalarField
     = Inl (MissingSubCodec (Some ''name'')) \<and>
   encodeField new_GraphQLRequest ''user'' JNull (CodecField (\<lambda>v. Inr v) (Some (\<lambda>_. userCodec)) None)
     = Inl (ExpectedObject JNull) \<and>
   encodeField new_GraphQLRequest ''user'' (JSymbol ''id'') (CodecField (\<lambda>v. Inr v) (Some (\<lambda>_. userCodec)) None)
     = Inl TypeError"
  by (simp add: encodeField.simps encodeObject.simps scalarField_def thrown_def)

text \<open>
  C5 (as amended). A response object that contains a key with no Field Descriptor in the
  Codec always fails to decode. The error is \<open>MissingDecoder\<close> naming that key when the
  entries before it decode without error, that is when it is the first entry to fail
  (entries are decoded in order and the first failure aborts the call), and the Codec
  has no field named \<open>toString\<close>.
\<close>

theorem decodeObject_missing_decoder:
  assumes "decoder k = None"
  shows "(\<exists>e. decodeObject (JObj (pre @ (k, v) # post)) decoder = Inl e) \<and>
         ((\<exists>r. decodeObject (JObj pre) decoder = Inr r) \<and> decoder ''toString'' = None \<longrightarrow>
            decodeObject (JObj (pre @ (k, v) # post)) decoder = Inl (MissingDecoder k))"
proof
  from decodeFields_unknown_fails [where decoder = decoder and k = k and pre = pre and v = v and post = post] assms
  show "\<exists>e. decodeObject (JObj (pre @ (k, v) # post)) decoder = Inl e"
    by (auto simp: decodeObject_JObj)
next
  show "(\<exists>r. decodeObject (JObj pre) decoder = Inr r) \<and> decoder ''toString'' = None \<longrightarrow>
            decodeObject (JObj (pre @ (k, v) # post)) decoder = Inl (MissingDecoder k)"
  proof
    assume a: "(\<exists>r. decodeObject (JObj pre) decoder = Inr r) \<and> decoder ''toString'' = None"
    then obtain ys where "decodeFields pre decoder = Inr ys"
      by (auto simp: decodeObject_JObj split: sum.splits)
    from decodeFields_unknown_first [where decoder = decoder and k = k and pre = pre and v = v
        and post = post and ys = ys] assms a this
    show "decodeObject (JObj (pre @ (k, v) # post)) decoder = Inl (MissingDecoder k)"
      by (simp add: decodeObject_JObj)
  qed
qed

text \<open>The theorem at the response \<open>{ email: "a@b.c", extraField: 7, name: null }\<close>.\<close>

theorem decodeObject_missing_decoder_witness:
  "userCodec ''extraField'' = None \<and> userCodec ''toString'' = None \<and>
   (\<exists>r. decodeObject (JObj [(''email'', JStr ''a@b.c'')]) userCodec = Inr r) \<and>
   decodeObject (JObj [(''email'', JStr ''a@b.c''), (''extraField'', JNum (Finite 7)), (''name'', JNull)]) userCodec
     = Inl (MissingDecoder ''extraField'')"
proof -
  have a: "userCodec ''extraField'' = None"
    by (simp add: userCodec_def)
  have t: "userCodec ''toString'' = None"
    by (simp add: userCodec_def)
  have b: "\<exists>r. decodeObject (JObj [(''email'', JStr ''a@b.c'')]) userCodec = Inr r"
    by (simp add: decodeObject_def userCodec_def scalarField_def)
  from decodeObject_missing_decoder [where decoder = userCodec and k = "''extraField''"
      and pre = "[(''email'', JStr ''a@b.c'')]" and v = "JNum (Finite 7)" and post = "[(''name'', JNull)]"] a b t
  show ?thesis by simp
qed

text \<open>The sentence of the specification fails at the response \<open>{ tags: 5, extraField: 2 }\<close>
  against a Codec whose list field \<open>tags\<close> decodes with \<open>decodeList\<close>: the error is the
  \<open>ExpectedArray\<close> of the earlier entry. It fails as well at the response
  \<open>{ name: "Ann", extraField: 1 }\<close> against a Codec with the fields \<open>name\<close> and
  \<open>toString\<close>: the message cannot be built.\<close>

theorem decodeObject_missing_decoder_counterexample:
  "decodeObject (JObj [(''tags'', JNum (Finite 5)), (''extraField'', JNum (Finite 2))])
     [''tags'' \<mapsto> CodecField (\<lambda>v. decodeList v (\<lambda>x. Inr x)) None None]
   = Inl (ExpectedArray (JNum (Finite 5))) \<and>
   decodeObject (JObj [(''name'', JStr ''Ann''), (''extraField'', JNum (Finite 1))])
     [''name'' \<mapsto> scalarField, ''toString'' \<mapsto> scalarField]
   = Inl TypeError"
  by (simp add: decodeObject_def thrown_def thrownOn_def scalarField_def)

text \<open>
  C6 (as amended). A Selection object that contains a field name which is neither a
  field of the Codec at that level nor the name of a member of \<open>Object.prototype\<close> always
  fails to encode: the field is never dropped silently. The error is \<open>UnknownField\<close>
  naming that field when the entries before it encode without error, that is when it is
  the first entry to fail (entries are encoded in order and the first failure aborts the
  call), and the Codec has no field named \<open>toString\<close>.
\<close>

theorem encodeObject_unknown_field:
  assumes "c k = None" and "k \<notin> set objectPrototype"
  shows "(\<exists>e. encodeObject st (JObj (pre @ (k, v) # post)) c = Inl e) \<and>
         ((\<exists>r. encodeObject st (JObj pre) c = Inr r) \<and> c ''toString'' = None \<longrightarrow>
            encodeObject st (JObj (pre @ (k, v) # post)) c = Inl (UnknownField k))"
proof
  from assms have g: "getMember c k = None"
    by (simp add: getMember_None)
  from encodeEntries_unknown_fails [OF g, of st pre v post]
  show "\<exists>e. encodeObject st (JObj (pre @ (k, v) # post)) c = Inl e"
    by (auto simp: encodeObject_JObj)
  show "(\<exists>r. encodeObject st (JObj pre) c = Inr r) \<and> c ''toString'' = None \<longrightarrow>
            encodeObject st (JObj (pre @ (k, v) # post)) c = Inl (UnknownField k)"
  proof
    assume a: "(\<exists>r. encodeObject st (JObj pre) c = Inr r) \<and> c ''toString'' = None"
    then obtain ss st' where "encodeEntries st pre c = Inr (ss, st')"
      by (auto simp: encodeObject_JObj split: sum.splits)
    from encodeEntries_unknown_first [where c = c and k = k and st = st and pre = pre and v = v
        and post = post and ss = ss and st' = st'] g a this
    show "encodeObject st (JObj (pre @ (k, v) # post)) c = Inl (UnknownField k)"
      by (simp add: encodeObject_JObj)
  qed
qed

text \<open>The theorem at the selection \<open>{ name: 1, unknownField: 1, email: 1 }\<close>.\<close>

theorem encodeObject_unknown_field_witness:
  "userCodec ''unknownField'' = None \<and> ''unknownField'' \<notin> set objectPrototype \<and>
   userCodec ''toString'' = None \<and>
   (\<exists>r. encodeObject new_GraphQLRequest (JObj [(''name'', JNum (Finite 1))]) userCodec = Inr r) \<and>
   encodeObject new_GraphQLRequest
     (JObj [(''name'', JNum (Finite 1)), (''unknownField'', JNum (Finite 1)), (''email'', JNum (Finite 1))]) userCodec
     = Inl (UnknownField ''unknownField'')"
proof -
  have a: "userCodec ''unknownField'' = None"
    by (simp add: userCodec_def)
  have p: "''unknownField'' \<notin> set objectPrototype"
    by (simp add: objectPrototype_def)
  have t: "userCodec ''toString'' = None"
    by (simp add: userCodec_def)
  have b: "\<exists>r. encodeObject new_GraphQLRequest (JObj [(''name'', JNum (Finite 1))]) userCodec = Inr r"
    by (simp add: encodeObject.simps encodeField.simps userCodec_def getMember_def)
  from encodeObject_unknown_field [where c = userCodec and k = "''unknownField''"
      and st = new_GraphQLRequest and pre = "[(''name'', JNum (Finite 1))]" and v = "JNum (Finite 1)"
      and post = "[(''email'', JNum (Finite 1))]"] a p t b
  show ?thesis by simp
qed

text \<open>The sentence of the specification fails at the selection
  \<open>{ name: { first: 1 }, unknownField: 1 }\<close>, where the scalar field \<open>name\<close> has no
  sub-codec: the error is the \<open>MissingSubCodec\<close> of the earlier entry. It fails at the
  selection \<open>{ toString: 1 }\<close>, which encodes to \<open>{ toString }\<close> though the Codec has no
  such field, and at \<open>{ unknownField: 1 }\<close> against a Codec with a field \<open>toString\<close>, where
  the message cannot be built.\<close>

theorem encodeObject_unknown_field_counterexample:
  "encodeObject new_GraphQLRequest
     (JObj [(''name'', JObj [(''first'', JNum (Finite 1))]), (''unknownField'', JNum (Finite 1))]) userCodec
   = Inl (MissingSubCodec (Some ''name'')) \<and>
   encodeObject new_GraphQLRequest (JObj [(''toString'', JNum (Finite 1))]) userCodec
   = Inr (''{ toString }'', new_GraphQLRequest) \<and>
   encodeObject new_GraphQLRequest (JObj [(''unknownField'', JNum (Finite 1))])
     [''toString'' \<mapsto> scalarField]
   = Inl TypeError"
  by (simp add: encodeObject.simps encodeField.simps userCodec_def scalarField_def getMember_def
      objectPrototype_def thrownOn_def)


end
